theory Spec2Isabelle
  imports Complex_Main "HOL-Library.Multiset"
begin

section \<open>Data model of package packer (src/packer/run.go)\<close>

text \<open>
  Go errors.  \<open>packing.ErrInputTooLarge\<close> and \<open>packing.ErrOutOfRoom\<close> are the two
  sentinel values \<open>Run\<close> compares against; every \<open>errors.New\<close> / \<open>fmt.Errorf\<close> value is
  \<open>Err\<close> with its message.
\<close>

datatype error = ErrInputTooLarge | ErrOutOfRoom | Err string

text \<open>\<open>%d\<close> of \<open>fmt.Sprintf\<close> / \<open>fmt.Errorf\<close>: the decimal digits of an int.\<close>

fun digits10 :: "nat \<Rightarrow> string" where
  "digits10 n =
     (if n < 10 then [''0123456789'' ! n]
      else digits10 (n div 10) @ [''0123456789'' ! (n mod 10)])"

declare digits10.simps [simp del]

definition itoa :: "int \<Rightarrow> string" where
  "itoa i = (if i < 0 then CHR ''-'' # digits10 (nat (- i)) else digits10 (nat i))"

text \<open>The single quote character that the messages of \<open>decode\<close> and \<open>Run\<close> contain.\<close>

definition quote :: string where
  "quote = [CHR 0x27]"

text \<open>
  \<open>target.Format\<close>: the file extension and the render template (a pointer, \<open>None\<close> when
  nil; the template text itself plays no role in \<open>Run\<close>).
\<close>

record Format =
  Ext :: string
  Template :: "string option"

text \<open>
  Modelled from the spec: \<open>Format.IsValid\<close> of package target is not part of the sources
  at hand; the specification asks for "a valid format (non-empty extension and non-empty
  render template)".
\<close>

definition IsValid :: "Format \<Rightarrow> bool" where
  "IsValid f = (Ext f \<noteq> [] \<and> Template f \<noteq> None)"

text \<open>
  An \<open>Asset\<close>: its identifier \<open>Asset()\<close> and what \<open>Reader()\<close> gives, either the text of
  an error or a reader; of a reader only the outcome of \<open>image.DecodeConfig\<close> matters,
  the text of an error or the pixel dimensions.
\<close>

record Config =
  cfg_Width :: int
  cfg_Height :: int

type_synonym reader = "string + Config"

record asset =
  Asset :: string
  Reader :: "string + reader"

text \<open>
  The \<open>sprite\<close> built by \<open>decode\<close> (fields \<open>Asset\<close>, \<open>path\<close>, \<open>w\<close>, \<open>h\<close>, \<open>padding\<close>), with
  the origin \<open>x\<close>, \<open>y\<close> that the packer assigns; Go zero-initialises the origin.
\<close>

record sprite =
  spr_Asset :: asset
  spr_path :: string
  spr_w :: int
  spr_h :: int
  spr_padding :: int
  spr_x :: int
  spr_y :: int

text \<open>
  \<open>assetDecodeResult\<close> is a struct of a sprite pointer and an error; \<open>decode\<close> only ever
  builds \<open>{spr, nil}\<close> or \<open>{nil, err}\<close>, so a result is a sum.
\<close>

type_synonym assetDecodeResult = "error + sprite"

text \<open>
  An \<open>AssetStreamer\<close>: the assets its channel yields and the terminal error of its error
  channel.  Five \<open>decode\<close> workers race on the channel, so the order in which results
  reach \<open>readAssetStream\<close> is any interleaving; \<open>assets\<close> lists the assets in the order
  in which their results arrive.
\<close>

record AssetStreamer =
  assets :: "asset list"
  stream_err :: "error option"

datatype Outputter = Outputter

datatype go_context = Background

record Params =
  Name :: string
  Input :: "AssetStreamer option"
  Output :: "Outputter option"
  Format :: Format
  Width :: int
  Height :: int
  Padding :: int
  MaxAtlases :: int
  Scale :: real
  CombineDescFiles :: bool
  NameFormatter :: "(string \<Rightarrow> int \<Rightarrow> string) option"

record atlas =
  atlas_Name :: string
  atlas_Sprites :: "sprite list"
  atlas_DescFilename :: string
  atlas_ImageFilename :: string
  atlas_Width :: int
  atlas_Height :: int
  atlas_Scale :: real

text \<open>
  The goroutines \<open>Run\<close> starts.  Inside the loop: \<open>atlas.OutputImage\<close> when descriptors
  are combined, \<open>atlas.Output\<close> (image and descriptor) otherwise.  After the loop: one
  goroutine that calls \<open>OutputDesc(output, i > 0, template)\<close> for each recorded atlas in
  turn; it is the list of its calls, each atlas with its append flag.
\<close>

datatype task =
  TaskOutputImage atlas
| TaskOutput atlas
| TaskOutputDesc "(atlas \<times> bool) list"

section \<open>Defaults and validation\<close>

text \<open>The package variables with the defaults, at the values they are initialised with.\<close>

definition DefaultAtlasName :: string where
  "DefaultAtlasName = ''atlas''"

definition DefaultAtlasWidth :: int where
  "DefaultAtlasWidth = 2048"

definition DefaultAtlasHeight :: int where
  "DefaultAtlasHeight = 2048"

definition DefaultNameFormatter :: "string \<Rightarrow> int \<Rightarrow> string" where
  "DefaultNameFormatter name index = name @ ''-'' @ itoa index"

definition applySensibleDefaults :: "Params \<Rightarrow> Params" where
  "applySensibleDefaults p0 =
     (let p1 = (if Name p0 = [] then p0\<lparr>Name := DefaultAtlasName\<rparr> else p0);
          p2 = (if Width p1 = 0 then p1\<lparr>Width := DefaultAtlasWidth\<rparr> else p1);
          p3 = (if Height p2 = 0 then p2\<lparr>Height := DefaultAtlasHeight\<rparr> else p2);
          p4 = (if Scale p3 = 0 then p3\<lparr>Scale := 1\<rparr> else p3)
      in (if NameFormatter p4 = None
          then p4\<lparr>NameFormatter := Some DefaultNameFormatter\<rparr> else p4))"

definition validateRequiredParameters :: "Params \<Rightarrow> error option" where
  "validateRequiredParameters p =
     (if Input p = None then Some (Err ''Input must not be nil'')
      else if Output p = None then Some (Err ''Output must not be nil'')
      else None)"

text \<open>The naming function after the defaults; \<open>Run\<close> calls it only then.\<close>

definition formatName :: "Params \<Rightarrow> string \<Rightarrow> int \<Rightarrow> string" where
  "formatName p = (case NameFormatter p of None \<Rightarrow> DefaultNameFormatter | Some f \<Rightarrow> f)"

section \<open>The decode pipeline\<close>

text \<open>
  Go's conversion \<open>int(f)\<close> of a float in the range of int truncates towards zero.
  The scale is a real number here: \<open>float64(cfg.Width) * scale\<close> is the exact product,
  which is what float64 computes whenever the product is representable (small integers
  times 0.5, 1, 2, -1).
\<close>

definition go_int :: "real \<Rightarrow> int" where
  "go_int f = (if 0 \<le> f then \<lfloor>f\<rfloor> else \<lceil>f\<rceil>)"

text \<open>One turn of the \<open>for asset := range in\<close> loop of \<open>decode\<close>: the result it publishes.\<close>

definition decode_asset :: "int \<Rightarrow> real \<Rightarrow> asset \<Rightarrow> assetDecodeResult" where
  "decode_asset padding scale a =
     (let assetPath = Asset a in
      case Reader a of
        Inl err \<Rightarrow>
          Inl (Err (''Failed to read asset '' @ quote @ assetPath @ quote @ '': '' @ err))
      | Inr assetReader \<Rightarrow>
          (case assetReader of
             Inl err \<Rightarrow>
               Inl (Err (''Failed to read asset metadata '' @ quote @ assetPath @ quote
                         @ '': '' @ err))
           | Inr cfg \<Rightarrow>
               Inr \<lparr>spr_Asset = a, spr_path = assetPath,
                    spr_w = go_int (real_of_int (cfg_Width cfg) * scale),
                    spr_h = go_int (real_of_int (cfg_Height cfg) * scale),
                    spr_padding = padding, spr_x = 0, spr_y = 0\<rparr>))"

text \<open>
  \<open>decode\<close>: a worker publishes one result for every asset it pulls from \<open>in\<close>; after a
  failure it goes on with the next asset (\<open>continue\<close>).
\<close>

fun decode :: "int \<Rightarrow> real \<Rightarrow> asset list \<Rightarrow> assetDecodeResult list" where
  "decode padding scale [] = []"
| "decode padding scale (a # in_rest) =
     decode_asset padding scale a # decode padding scale in_rest"

text \<open>
  The \<open>for res := range out\<close> loop of \<open>readAssetStream\<close>: return at the first result
  that carries an error, append the sprite otherwise.
\<close>

fun drain :: "assetDecodeResult list \<Rightarrow> sprite list \<Rightarrow> error + sprite list" where
  "drain [] sprites = Inr sprites"
| "drain (res # out) sprites =
     (case res of Inl e \<Rightarrow> Inl e | Inr spr \<Rightarrow> drain out (sprites @ [spr]))"

definition readAssetStream :: "AssetStreamer \<Rightarrow> int \<Rightarrow> real \<Rightarrow> error + sprite list" where
  "readAssetStream assetStream padding scale =
     (case drain (decode padding scale (assets assetStream)) [] of
        Inl e \<Rightarrow> Inl e
      | Inr sprites \<Rightarrow>
          (case stream_err assetStream of Some e \<Rightarrow> Inl e | None \<Rightarrow> Inr sprites))"

section \<open>Sorting\<close>

text \<open>
  Modelled from the spec: \<open>packing.ByArea\<close> and the \<open>Size\<close> of a block are not part of
  the sources at hand.  The specification orders sprites "by descending bounding-box area
  (ties broken by original discovery order)", and a placement "reserves width+padding
  \<times> height+padding".  \<open>sort.Sort\<close> gives no guarantee for ties in general; on a
  slice of up to 6 elements it is a plain insertion sort in every Go release, which
  leaves ties in their order, as \<open>sort_key\<close> does.
\<close>

definition Size :: "sprite \<Rightarrow> int \<times> int" where
  "Size s = (spr_w s + spr_padding s, spr_h s + spr_padding s)"

definition area :: "sprite \<Rightarrow> int" where
  "area s = fst (Size s) * snd (Size s)"

definition sort_ByArea :: "sprite list \<Rightarrow> sprite list" where
  "sort_ByArea sprites = sort_key (\<lambda>s. - area s) sprites"

section \<open>The pack loop of Run\<close>

text \<open>
  The packer of package packing is a parameter of the loop: \<open>NewBinPacker w h\<close> gives a
  fresh packer state and \<open>Pack pk s\<close> the returned error (\<open>None\<close> for nil), the new packer
  state and the sprite with its origin assigned.

  The inner \<open>for _, sprite := range sprites\<close> loop.  \<open>sprites\<close> and \<open>incompleteSprites\<close>
  share one backing array from the second pass on; the loop writes slot \<open>j\<close> of it only
  after it has read slot \<open>i \<ge> j\<close>, so the lists below are what the code sees.
\<close>

fun pack_sprites ::
  "('p \<Rightarrow> sprite \<Rightarrow> error option \<times> 'p \<times> sprite) \<Rightarrow> 'p \<Rightarrow> sprite list \<Rightarrow>
   sprite list \<Rightarrow> sprite list \<Rightarrow> error + (sprite list \<times> sprite list)" where
  "pack_sprites Pack packer [] completedSprites incompleteSprites =
     Inr (completedSprites, incompleteSprites)"
| "pack_sprites Pack packer (s # rest) completedSprites incompleteSprites =
     (let (r, packer', s') = Pack packer s in
      if r = Some ErrInputTooLarge then Inl ErrInputTooLarge
      else if r = Some ErrOutOfRoom
        then pack_sprites Pack packer' rest completedSprites (incompleteSprites @ [s'])
      else pack_sprites Pack packer' rest (completedSprites @ [s']) incompleteSprites)"

definition limit_reached :: "Params \<Rightarrow> int \<Rightarrow> bool" where
  "limit_reached params totalNumberOfAtlases =
     (MaxAtlases params > 0 \<and> totalNumberOfAtlases = MaxAtlases params)"

definition limit_error :: "Params \<Rightarrow> error" where
  "limit_error params =
     Err (''Maximum number of atlases ('' @ itoa (MaxAtlases params) @ '') exceeded'')"

definition new_atlas :: "Params \<Rightarrow> int \<Rightarrow> sprite list \<Rightarrow> atlas" where
  "new_atlas params totalNumberOfAtlases completedSprites =
     (let atlasName = formatName params (Name params) totalNumberOfAtlases;
          descName = (if CombineDescFiles params then Name params
                      else formatName params (Name params) totalNumberOfAtlases)
      in \<lparr>atlas_Name = atlasName,
          atlas_Sprites = completedSprites,
          atlas_DescFilename = descName @ ''.'' @ Ext (Format params),
          atlas_ImageFilename = atlasName @ ''.'' @ ''png'',
          atlas_Width = Width params,
          atlas_Height = Height params,
          atlas_Scale = Scale params\<rparr>)"

text \<open>
  One turn of the \<open>for\<close> loop after the limit check (lines 155 to 219): either the loop
  ends, with the tasks dispatched so far and an error or the atlases recorded for the
  combined descriptor, or the next turn starts from new values of \<open>sprites\<close>,
  \<open>totalNumberOfAtlases\<close>, the dispatched tasks and \<open>descAtlases\<close>.
\<close>

datatype pass =
  Done "task list \<times> (error + atlas list)"
| Next "sprite list" int "task list" "atlas list"

definition pack_pass ::
  "(int \<Rightarrow> int \<Rightarrow> 'p) \<Rightarrow> ('p \<Rightarrow> sprite \<Rightarrow> error option \<times> 'p \<times> sprite) \<Rightarrow> Params \<Rightarrow> nat \<Rightarrow>
   sprite list \<Rightarrow> int \<Rightarrow> task list \<Rightarrow> atlas list \<Rightarrow> pass" where
  "pack_pass NewBinPacker Pack params totalNumberOfSprites sprites totalNumberOfAtlases
     tasks descAtlases =
     (case pack_sprites Pack (NewBinPacker (Width params) (Height params)) sprites [] [] of
        Inl e \<Rightarrow> Done (tasks, Inl e)
      | Inr (completedSprites, incompleteSprites) \<Rightarrow>
          (let n = totalNumberOfAtlases + 1;
               a = new_atlas params n completedSprites;
               descAtlases' = (if CombineDescFiles params then descAtlases @ [a]
                               else descAtlases);
               tasks' = tasks @ [if CombineDescFiles params then TaskOutputImage a
                                 else TaskOutput a];
               totalNumberOfIncompletedSprites = length incompleteSprites
           in if totalNumberOfIncompletedSprites = 0 then Done (tasks', Inr descAtlases')
              else if totalNumberOfIncompletedSprites = totalNumberOfSprites
                then Done (tasks', Inl ErrOutOfRoom)
              else Next incompleteSprites n tasks' descAtlases'))"

text \<open>The \<open>for\<close> loop; \<open>None\<close> when it never ends.\<close>

partial_function (option) pack_loop ::
  "(int \<Rightarrow> int \<Rightarrow> 'p) \<Rightarrow> ('p \<Rightarrow> sprite \<Rightarrow> error option \<times> 'p \<times> sprite) \<Rightarrow> Params \<Rightarrow> nat \<Rightarrow>
   sprite list \<Rightarrow> int \<Rightarrow> task list \<Rightarrow> atlas list \<Rightarrow>
   (task list \<times> (error + atlas list)) option" where
  "pack_loop NewBinPacker Pack params totalNumberOfSprites sprites totalNumberOfAtlases
     tasks descAtlases =
     (if limit_reached params totalNumberOfAtlases
      then Some (tasks, Inl (limit_error params))
      else case pack_pass NewBinPacker Pack params totalNumberOfSprites sprites
                  totalNumberOfAtlases tasks descAtlases of
             Done r \<Rightarrow> Some r
           | Next sprites' n tasks' descAtlases' \<Rightarrow>
               pack_loop NewBinPacker Pack params totalNumberOfSprites sprites' n tasks'
                 descAtlases')"

declare pack_loop.simps [code]

section \<open>Run\<close>

text \<open>The calls of the combined-descriptor goroutine: \<open>for i := range descAtlases\<close>.\<close>

fun desc_calls :: "nat \<Rightarrow> atlas list \<Rightarrow> (atlas \<times> bool) list" where
  "desc_calls i [] = []"
| "desc_calls i (a # rest) = (a, i > 0) # desc_calls (Suc i) rest"

text \<open>
  \<open>for err := range errc\<close>: the first non-nil value the tasks send, nil when there is
  none.  The list is what arrives on \<open>errc\<close>, in order of arrival.
\<close>

fun wait_errc :: "error option list \<Rightarrow> error option" where
  "wait_errc [] = None"
| "wait_errc (e # errc) = (case e of Some err \<Rightarrow> Some err | None \<Rightarrow> wait_errc errc)"

text \<open>
  \<open>Run\<close> gives the tasks it has dispatched, in dispatch order, and the error it returns
  (\<open>None\<close> for nil); the whole is \<open>None\<close> when the pack loop never ends.  After the
  validation the input is not nil, so the branch for a nil input in the middle is never
  taken.
\<close>

definition Run ::
  "(int \<Rightarrow> int \<Rightarrow> 'p) \<Rightarrow> ('p \<Rightarrow> sprite \<Rightarrow> error option \<times> 'p \<times> sprite) \<Rightarrow>
   go_context option \<Rightarrow> Params option \<Rightarrow> error option list \<Rightarrow>
   (task list \<times> error option) option" where
  "Run NewBinPacker Pack ctx params_ptr errc =
     (case ctx of
        None \<Rightarrow> Some ([], Some (Err ''Context must not be nil''))
      | Some _ \<Rightarrow>
     (case params_ptr of
        None \<Rightarrow> Some ([], Some (Err ''Params must not be nil''))
      | Some params0 \<Rightarrow>
     if \<not> IsValid (Format params0)
     then Some ([], Some (Err (''Invalid '' @ quote @ ''Format'' @ quote @ '' parameter'')))
     else
     (case validateRequiredParameters params0 of
        Some err \<Rightarrow> Some ([], Some err)
      | None \<Rightarrow>
     (let params = applySensibleDefaults params0 in
      case Input params of
        None \<Rightarrow> Some ([], Some (Err ''Input must not be nil''))
      | Some input \<Rightarrow>
     (case readAssetStream input (Padding params) (Scale params) of
        Inl err \<Rightarrow> Some ([], Some err)
      | Inr decoded \<Rightarrow>
     (let sprites = sort_ByArea decoded;
          totalNumberOfSprites = length sprites
      in case pack_loop NewBinPacker Pack params totalNumberOfSprites sprites 0 [] [] of
           None \<Rightarrow> None
         | Some (tasks, Inl err) \<Rightarrow> Some (tasks, Some err)
         | Some (tasks, Inr descAtlases) \<Rightarrow>
             Some (if length descAtlases > 0
                   then tasks @ [TaskOutputDesc (desc_calls 0 descAtlases)]
                   else tasks,
                   wait_errc errc)))))))"

section \<open>A packer for concrete runs\<close>

text \<open>
  Modelled from the spec: package packing (\<open>NewBinPacker\<close>, \<open>Pack\<close>) is not part of the
  sources at hand.  After section 4.1 of the specification: the canvas is a list of free
  rectangles; \<open>Pack\<close> signals InputTooLarge when the unpadded size exceeds the canvas
  width or height, OutOfRoom when the padded box fits no free rectangle; it takes the
  smallest free rectangle that fits (the first one among equals) and splits it into the
  part right of the placed box and the part below it.
\<close>

record rect =
  rect_x :: int
  rect_y :: int
  rect_w :: int
  rect_h :: int

record BinPacker =
  bp_width :: int
  bp_height :: int
  bp_free :: "rect list"

definition NewBinPacker :: "int \<Rightarrow> int \<Rightarrow> BinPacker" where
  "NewBinPacker w h =
     \<lparr>bp_width = w, bp_height = h,
      bp_free = [\<lparr>rect_x = 0, rect_y = 0, rect_w = w, rect_h = h\<rparr>]\<rparr>"

fun best_fit :: "int \<Rightarrow> int \<Rightarrow> rect list \<Rightarrow> rect option \<Rightarrow> rect option" where
  "best_fit w h [] best = best"
| "best_fit w h (r # rs) best =
     (if w \<le> rect_w r \<and> h \<le> rect_h r \<and>
         (case best of None \<Rightarrow> True
          | Some b \<Rightarrow> rect_w r * rect_h r < rect_w b * rect_h b)
      then best_fit w h rs (Some r)
      else best_fit w h rs best)"

definition split_rect :: "rect \<Rightarrow> int \<Rightarrow> int \<Rightarrow> rect list" where
  "split_rect r w h =
     filter (\<lambda>f. rect_w f > 0 \<and> rect_h f > 0)
       [\<lparr>rect_x = rect_x r + w, rect_y = rect_y r, rect_w = rect_w r - w, rect_h = h\<rparr>,
        \<lparr>rect_x = rect_x r, rect_y = rect_y r + h, rect_w = rect_w r, rect_h = rect_h r - h\<rparr>]"

definition Pack :: "BinPacker \<Rightarrow> sprite \<Rightarrow> error option \<times> BinPacker \<times> sprite" where
  "Pack p s =
     (if spr_w s > bp_width p \<or> spr_h s > bp_height p then (Some ErrInputTooLarge, p, s)
      else
        (let (w, h) = Size s in
         case best_fit w h (bp_free p) None of
           None \<Rightarrow> (Some ErrOutOfRoom, p, s)
         | Some r \<Rightarrow>
             (None,
              p\<lparr>bp_free := remove1 r (bp_free p) @ split_rect r w h\<rparr>,
              s\<lparr>spr_x := rect_x r, spr_y := rect_y r\<rparr>)))"

section \<open>Notions used in the statements\<close>

text \<open>The task a pass dispatches for its atlas (lines 188 to 207).\<close>

definition dispatch :: "Params \<Rightarrow> atlas \<Rightarrow> task" where
  "dispatch params a = (if CombineDescFiles params then TaskOutputImage a else TaskOutput a)"

text \<open>
  The atlases of consecutive passes, from the sprites each pass has placed: the first
  one gets the index \<open>n + 1\<close>.
\<close>

fun atlases_from :: "Params \<Rightarrow> int \<Rightarrow> sprite list list \<Rightarrow> atlas list" where
  "atlases_from params n [] = []"
| "atlases_from params n (cs # css) =
     new_atlas params (n + 1) cs # atlases_from params (n + 1) css"

text \<open>
  What holds of a result \<open>y\<close> of the loop started with \<open>sprites\<close>, \<open>n\<close> atlases, the
  dispatched \<open>tasks\<close> and the recorded \<open>descs\<close>.
\<close>

definition loop_inv ::
  "Params \<Rightarrow> nat \<Rightarrow> sprite list \<Rightarrow> int \<Rightarrow> task list \<Rightarrow> atlas list \<Rightarrow>
   task list \<times> (error + atlas list) \<Rightarrow> bool" where
  "loop_inv params tot sprites n tasks descs y =
     (\<exists>css. fst y = tasks @ map (dispatch params) (atlases_from params n css) \<and>
        (case snd y of
           Inr descs' \<Rightarrow>
             css \<noteq> [] \<and>
             descs' = (if CombineDescFiles params then descs @ atlases_from params n css
                       else descs)
         | Inl e \<Rightarrow>
             (e = ErrOutOfRoom \<longrightarrow> length sprites \<le> tot \<longrightarrow> css \<noteq> [] \<and> last css = []) \<and>
             (e = limit_error params \<and> limit_reached params (n + int (length css)) \<or>
              e = ErrOutOfRoom \<or> e = ErrInputTooLarge)))"

text \<open>The first \<open>k\<close> turns of the loop body, without the limit check.\<close>

fun passes ::
  "nat \<Rightarrow> (int \<Rightarrow> int \<Rightarrow> 'p) \<Rightarrow> ('p \<Rightarrow> sprite \<Rightarrow> error option \<times> 'p \<times> sprite) \<Rightarrow> Params \<Rightarrow> nat \<Rightarrow>
   sprite list \<Rightarrow> int \<Rightarrow> task list \<Rightarrow> atlas list \<Rightarrow> pass" where
  "passes 0 NB P params tot sprites n tasks descs = Next sprites n tasks descs"
| "passes (Suc k) NB P params tot sprites n tasks descs =
     (case pack_pass NB P params tot sprites n tasks descs of
        Done r \<Rightarrow> Done r
      | Next sprites' n' tasks' descs' \<Rightarrow> passes k NB P params tot sprites' n' tasks' descs')"

text \<open>
  The state of the packer once the sprites of a list have been offered to it, and
  whether it has signalled InputTooLarge for one of them.
\<close>

fun packer_after :: "('p \<Rightarrow> sprite \<Rightarrow> error option \<times> 'p \<times> sprite) \<Rightarrow> 'p \<Rightarrow> sprite list \<Rightarrow> 'p" where
  "packer_after P pk [] = pk"
| "packer_after P pk (s # rest) = packer_after P (fst (snd (P pk s))) rest"

fun too_large_in :: "('p \<Rightarrow> sprite \<Rightarrow> error option \<times> 'p \<times> sprite) \<Rightarrow> 'p \<Rightarrow> sprite list \<Rightarrow> bool" where
  "too_large_in P pk [] = False"
| "too_large_in P pk (s # rest) =
     (fst (P pk s) = Some ErrInputTooLarge \<or> too_large_in P (fst (snd (P pk s))) rest)"

section \<open>Concrete inputs\<close>

definition love_Format :: Format where
  "love_Format = \<lparr>Ext = ''lua'', Template = Some ''love''\<rparr>"

definition image_asset :: "string \<Rightarrow> int \<Rightarrow> int \<Rightarrow> asset" where
  "image_asset p w h = \<lparr>Asset = p, Reader = Inr (Inr \<lparr>cfg_Width = w, cfg_Height = h\<rparr>)\<rparr>"

text \<open>
  Parameters with name, scale and naming function unset: the assets in arrival order,
  the atlas size, the padding, the atlas limit and the combine flag.
\<close>

definition example_Params :: "asset list \<Rightarrow> int \<Rightarrow> int \<Rightarrow> int \<Rightarrow> int \<Rightarrow> bool \<Rightarrow> Params" where
  "example_Params as w h pad mx comb =
     \<lparr>Name = [], Input = Some \<lparr>assets = as, stream_err = None\<rparr>, Output = Some Outputter,
      Format = love_Format, Width = w, Height = h, Padding = pad, MaxAtlases = mx,
      Scale = 0, CombineDescFiles = comb, NameFormatter = None\<rparr>"


definition placed :: "string \<Rightarrow> int \<Rightarrow> int \<Rightarrow> int \<Rightarrow> int \<Rightarrow> int \<Rightarrow> sprite" where
  "placed p w h pad x y =
     \<lparr>spr_Asset = image_asset p w h, spr_path = p, spr_w = w, spr_h = h, spr_padding = pad,
      spr_x = x, spr_y = y\<rparr>"

definition example_atlas :: "string \<Rightarrow> string \<Rightarrow> sprite list \<Rightarrow> atlas" where
  "example_atlas stem desc sprs =
     \<lparr>atlas_Name = stem, atlas_Sprites = sprs, atlas_DescFilename = desc,
      atlas_ImageFilename = stem @ ''.png'', atlas_Width = 10, atlas_Height = 10,
      atlas_Scale = 1\<rparr>"





definition padded_Params :: Params where
  "padded_Params = example_Params [image_asset ''a.png'' 9 9] 10 10 2 0 False"

definition limited_Params :: "asset list \<Rightarrow> int \<Rightarrow> Params" where
  "limited_Params as mx = example_Params as 10 10 0 mx False"

definition three_big :: "asset list" where
  "three_big = [image_asset ''a.png'' 6 6, image_asset ''b.png'' 6 6, image_asset ''c.png'' 6 6]"

definition three_big_sprites :: "sprite list" where
  "three_big_sprites =
     [placed ''a.png'' 6 6 0 0 0, placed ''b.png'' 6 6 0 0 0, placed ''c.png'' 6 6 0 0 0]"

definition big_atlas :: "int \<Rightarrow> string \<Rightarrow> atlas" where
  "big_atlas i p =
     example_atlas (''atlas-'' @ itoa i) (''atlas-'' @ itoa i @ ''.lua'') [placed p 6 6 0 0 0]"

definition too_large_sprites :: "sprite list" where
  "too_large_sprites =
     [placed ''a.png'' 8 8 0 0 0, placed ''b.png'' 11 4 0 0 0, placed ''c.png'' 3 3 0 0 0]"

definition stuck_Params :: "int \<Rightarrow> Params" where
  "stuck_Params mx =
     example_Params [image_asset ''a.png'' 9 9, image_asset ''b.png'' 4 4] 10 10 2 mx False"

definition failing_asset :: "string \<Rightarrow> string \<Rightarrow> asset" where
  "failing_asset p msg = \<lparr>Asset = p, Reader = Inl msg\<rparr>"


definition failing_stream :: AssetStreamer where
  "failing_stream =
     \<lparr>assets = [image_asset ''a.png'' 4 4, failing_asset ''b.png'' ''no such file'',
                image_asset ''c.png'' 3 3],
      stream_err = None\<rparr>"

definition failing_error :: error where
  "failing_error =
     Err (''Failed to read asset '' @ quote @ ''b.png'' @ quote @ '': no such file'')"

definition good_stream :: AssetStreamer where
  "good_stream =
     \<lparr>assets = [image_asset ''a.png'' 4 4, image_asset ''c.png'' 3 3], stream_err = None\<rparr>"



section \<open>Defaults\<close>




section \<open>The decode pipeline\<close>





lemma decode_map: "decode padding scale ins = map (decode_asset padding scale) ins"
  by (induction ins) auto

lemma drain_sprites: "drain (map Inr sprs) acc = Inr (acc @ sprs)"
  by (induction sprs arbitrary: acc) auto

lemma drain_error: "drain (map Inr sprs @ Inl e # rest) acc = Inl e"
  by (induction sprs arbitrary: acc) auto

lemma drain_Inl:
  "drain rs acc = Inl e \<Longrightarrow> Inl e \<in> set rs"
  by (induction rs arbitrary: acc) (auto split: sum.splits)

lemma all_decoded:
  "(\<forall>x \<in> set xs. \<exists>s. f x = Inr s) \<Longrightarrow> \<exists>sprs. map f xs = map Inr sprs"
proof (induction xs)
  case Nil
  then show ?case by simp
next
  case (Cons x xs)
  then obtain s sprs where "f x = Inr s" "map f xs = map Inr sprs" by auto
  then have "map f (x # xs) = map Inr (s # sprs)" by simp
  then show ?case by blast
qed

lemma decode_asset_error:
  assumes "decode_asset padding scale a = Inl e"
  shows "\<exists>pre post. e = Err (pre @ quote @ Asset a @ quote @ post)"
proof (cases "Reader a")
  case (Inl err)
  with assms have "e = Err (''Failed to read asset '' @ quote @ Asset a @ quote @ ('': '' @ err))"
    by (simp add: decode_asset_def)
  then show ?thesis by blast
next
  case (Inr assetReader)
  show ?thesis
  proof (cases assetReader)
    case (Inl err)
    with Inr assms
    have "e = Err (''Failed to read asset metadata '' @ quote @ Asset a @ quote @ ('': '' @ err))"
      by (simp add: decode_asset_def)
    then show ?thesis by blast
  next
    case (Inr cfg)
    with \<open>Reader a = Inr assetReader\<close> assms show ?thesis by (simp add: decode_asset_def)
  qed
qed

lemma readAssetStream_Inl:
  assumes "readAssetStream st padding scale = Inl e"
  shows "(\<exists>msg. e = Err msg) \<or> stream_err st = Some e"
proof (cases "drain (decode padding scale (assets st)) []")
  case (Inl e')
  with assms have "e' = e" by (simp add: readAssetStream_def)
  with Inl have "Inl e \<in> set (decode padding scale (assets st))" by (auto dest: drain_Inl)
  then obtain a where "decode_asset padding scale a = Inl e" by (auto simp: decode_map)
  from decode_asset_error [OF this] show ?thesis by blast
next
  case (Inr sprs)
  with assms show ?thesis by (simp add: readAssetStream_def split: option.splits)
qed

text \<open>
  C6.  A worker publishes one result for every asset it pulls, the assets after a
  failing one included.  When every asset decodes and the stream ends without an error,
  \<open>readAssetStream\<close> returns the sprites, one per asset.  When a decode fails, it
  returns the error of the first failing result to arrive, and the message of that error
  holds the identifier of the failing asset in quotes.  When every asset decodes and the
  stream itself ends with an error, that error is returned.
\<close>

theorem readAssetStream_result:
  "(length (decode padding scale ins) = length ins \<and>
    (\<forall>i < length ins. decode padding scale ins ! i = decode_asset padding scale (ins ! i))) \<and>
   ((\<forall>a \<in> set (assets st). \<exists>s. decode_asset padding scale a = Inr s) \<longrightarrow>
      (\<exists>sprites. map Inr sprites = map (decode_asset padding scale) (assets st) \<and>
         length sprites = length (assets st) \<and>
         readAssetStream st padding scale =
           (case stream_err st of None \<Rightarrow> Inr sprites | Some e \<Rightarrow> Inl e))) \<and>
   (assets st = xs @ a # ys \<and> (\<forall>x \<in> set xs. \<exists>s. decode_asset padding scale x = Inr s) \<and>
    decode_asset padding scale a = Inl e \<longrightarrow>
      readAssetStream st padding scale = Inl e \<and>
      (\<exists>pre post. e = Err (pre @ quote @ Asset a @ quote @ post)))"
proof (intro conjI impI allI)
  show "length (decode padding scale ins) = length ins" by (simp add: decode_map)
next
  fix i assume "i < length ins"
  then show "decode padding scale ins ! i = decode_asset padding scale (ins ! i)"
    by (simp add: decode_map)
next
  assume "\<forall>a \<in> set (assets st). \<exists>s. decode_asset padding scale a = Inr s"
  from all_decoded [OF this] obtain sprs where
    sprs: "map (decode_asset padding scale) (assets st) = map Inr sprs" by blast
  then have "length sprs = length (assets st)" by (metis length_map)
  moreover from sprs have "readAssetStream st padding scale =
      (case stream_err st of None \<Rightarrow> Inr sprs | Some e \<Rightarrow> Inl e)"
    by (simp add: readAssetStream_def decode_map drain_sprites split: option.splits)
  ultimately show "\<exists>sprites. map Inr sprites = map (decode_asset padding scale) (assets st) \<and>
         length sprites = length (assets st) \<and>
         readAssetStream st padding scale =
           (case stream_err st of None \<Rightarrow> Inr sprites | Some e \<Rightarrow> Inl e)"
    using sprs by (intro exI [of _ sprs]) simp
next
  assume a: "assets st = xs @ a # ys \<and>
    (\<forall>x \<in> set xs. \<exists>s. decode_asset padding scale x = Inr s) \<and>
    decode_asset padding scale a = Inl e"
  then obtain sprs where "map (decode_asset padding scale) xs = map Inr sprs"
    using all_decoded [of xs "decode_asset padding scale"] by blast
  with a show "readAssetStream st padding scale = Inl e"
    by (simp add: readAssetStream_def decode_map drain_error)
next
  assume "assets st = xs @ a # ys \<and>
    (\<forall>x \<in> set xs. \<exists>s. decode_asset padding scale x = Inr s) \<and>
    decode_asset padding scale a = Inl e"
  then show "\<exists>pre post. e = Err (pre @ quote @ Asset a @ quote @ post)"
    using decode_asset_error by blast
qed

theorem readAssetStream_result_witness:
  "assets failing_stream =
     [image_asset ''a.png'' 4 4] @ failing_asset ''b.png'' ''no such file'' #
     [image_asset ''c.png'' 3 3] \<and>
   decode_asset 0 1 (image_asset ''a.png'' 4 4) = Inr (placed ''a.png'' 4 4 0 0 0) \<and>
   decode_asset 0 1 (failing_asset ''b.png'' ''no such file'') = Inl failing_error \<and>
   readAssetStream failing_stream 0 1 = Inl failing_error \<and>
   decode_asset 0 1 (image_asset ''c.png'' 3 3) = Inr (placed ''c.png'' 3 3 0 0 0) \<and>
   readAssetStream good_stream 0 1 =
     Inr [placed ''a.png'' 4 4 0 0 0, placed ''c.png'' 3 3 0 0 0]"
proof -
  have a: "decode_asset 0 1 (image_asset ''a.png'' 4 4) = Inr (placed ''a.png'' 4 4 0 0 0)"
    by (simp add: decode_asset_def image_asset_def placed_def go_int_def)
  have c: "decode_asset 0 1 (image_asset ''c.png'' 3 3) = Inr (placed ''c.png'' 3 3 0 0 0)"
    by (simp add: decode_asset_def image_asset_def placed_def go_int_def)
  have b: "decode_asset 0 1 (failing_asset ''b.png'' ''no such file'') = Inl failing_error"
    by (simp add: decode_asset_def failing_asset_def failing_error_def)
  have f: "assets failing_stream =
     [image_asset ''a.png'' 4 4] @ failing_asset ''b.png'' ''no such file'' #
     [image_asset ''c.png'' 3 3]"
    by (simp add: failing_stream_def)
  from readAssetStream_result [of 0 1 "[]" failing_stream "[image_asset ''a.png'' 4 4]"
      "failing_asset ''b.png'' ''no such file''" "[image_asset ''c.png'' 3 3]" failing_error]
    a b f
  have r1: "readAssetStream failing_stream 0 1 = Inl failing_error" by simp
  have h: "\<forall>a \<in> set (assets good_stream). \<exists>s. decode_asset 0 1 a = Inr s"
    by (simp add: good_stream_def a c)
  from readAssetStream_result [of 0 1 "[]" good_stream, THEN conjunct2, THEN conjunct1,
      rule_format, OF h [rule_format]]
  obtain sprites where
    s1: "map Inr sprites = map (decode_asset 0 1) (assets good_stream)" and
    s2: "readAssetStream good_stream 0 1 =
       (case stream_err good_stream of None \<Rightarrow> Inr sprites | Some e \<Rightarrow> Inl e)"
    by blast
  have m: "map (decode_asset 0 1) (assets good_stream) =
      map Inr [placed ''a.png'' 4 4 0 0 0, placed ''c.png'' 3 3 0 0 0]"
    by (simp add: good_stream_def a c)
  have se: "stream_err good_stream = None" by (simp add: good_stream_def)
  from s1 m have "(map Inr sprites :: assetDecodeResult list) =
      map Inr [placed ''a.png'' 4 4 0 0 0, placed ''c.png'' 3 3 0 0 0]"
    by (rule trans)
  then have "sprites = [placed ''a.png'' 4 4 0 0 0, placed ''c.png'' 3 3 0 0 0]"
    by (simp only: inj_map_eq_map [OF inj_Inr])
  with s2 se have r2: "readAssetStream good_stream 0 1 =
     Inr [placed ''a.png'' 4 4 0 0 0, placed ''c.png'' 3 3 0 0 0]"
    by simp
  from f a b r1 c r2 show ?thesis by (intro conjI)
qed

section \<open>One pass of the loop\<close>

lemma pack_sprites_length:
  "pack_sprites P pk xs cs ics = Inr (cs', ics') \<Longrightarrow>
   length cs' + length ics' = length cs + length ics + length xs"
proof (induction xs arbitrary: pk cs ics)
  case Nil
  then show ?case by simp
next
  case (Cons x xs)
  obtain r pk' s' where pk: "P pk x = (r, pk', s')" by (cases "P pk x") auto
  show ?case
  proof (cases "r = Some ErrInputTooLarge")
    case True
    with Cons.prems pk show ?thesis by simp
  next
    case nt: False
    show ?thesis
    proof (cases "r = Some ErrOutOfRoom")
      case True
      with Cons.prems pk nt have "pack_sprites P pk' xs cs (ics @ [s']) = Inr (cs', ics')" by simp
      from Cons.IH [OF this] show ?thesis by simp
    next
      case False
      with Cons.prems pk nt have "pack_sprites P pk' xs (cs @ [s']) ics = Inr (cs', ics')" by simp
      from Cons.IH [OF this] show ?thesis by simp
    qed
  qed
qed

lemma pack_sprites_error:
  "pack_sprites P pk xs cs ics = Inl e \<Longrightarrow> e = ErrInputTooLarge"
proof (induction xs arbitrary: pk cs ics)
  case Nil
  then show ?case by simp
next
  case (Cons x xs)
  obtain r pk' s' where pk: "P pk x = (r, pk', s')" by (cases "P pk x") auto
  with Cons show ?case by (auto split: if_splits)
qed

lemma pack_sprites_too_large:
  "\<not> too_large_in P pk xs \<Longrightarrow>
   fst (P (packer_after P pk xs) x) = Some ErrInputTooLarge \<Longrightarrow>
   pack_sprites P pk (xs @ x # ys) cs ics = Inl ErrInputTooLarge"
proof (induction xs arbitrary: pk cs ics)
  case Nil
  then show ?case by (cases "P pk x") simp
next
  case (Cons a xs)
  obtain r pk' s' where a: "P pk a = (r, pk', s')" by (cases "P pk a") auto
  with Cons.prems have nt: "r \<noteq> Some ErrInputTooLarge" "\<not> too_large_in P pk' xs"
    "fst (P (packer_after P pk' xs) x) = Some ErrInputTooLarge"
    by simp_all
  from Cons.IH [OF nt(2,3)] a nt(1) show ?case by simp
qed

lemma atlases_from_append:
  "atlases_from params n (css @ dss) = atlases_from params n css @ atlases_from params (n + int (length css)) dss"
  by (induction css arbitrary: n) (auto simp: algebra_simps)

lemma atlases_from_nth:
  "i < length css \<Longrightarrow> atlases_from params n css ! i = new_atlas params (n + 1 + int i) (css ! i)"
proof (induction css arbitrary: n i)
  case Nil
  then show ?case by simp
next
  case (Cons cs css)
  then show ?case by (cases i) (auto simp: algebra_simps)
qed

lemma length_atlases_from [simp]: "length (atlases_from params n css) = length css"
  by (induction css arbitrary: n) auto

lemma atlases_from_eq_Nil [simp]: "atlases_from params n css = [] \<longleftrightarrow> css = []"
  by (cases css) auto

lemma pack_pass_cases:
  obtains (TooLarge) "pack_pass NB P params tot sprites n tasks descs = Done (tasks, Inl ErrInputTooLarge)"
  | (Packed) cs ics where "pack_sprites P (NB (Width params) (Height params)) sprites [] [] = Inr (cs, ics)"
      "length cs + length ics = length sprites"
      "pack_pass NB P params tot sprites n tasks descs =
        (if length ics = 0
         then Done (tasks @ [dispatch params (new_atlas params (n + 1) cs)],
                    Inr (if CombineDescFiles params then descs @ [new_atlas params (n + 1) cs] else descs))
         else if length ics = tot
         then Done (tasks @ [dispatch params (new_atlas params (n + 1) cs)], Inl ErrOutOfRoom)
         else Next ics (n + 1) (tasks @ [dispatch params (new_atlas params (n + 1) cs)])
                (if CombineDescFiles params then descs @ [new_atlas params (n + 1) cs] else descs))"
proof (cases "pack_sprites P (NB (Width params) (Height params)) sprites [] []")
  case (Inl e)
  then have "e = ErrInputTooLarge" by (rule pack_sprites_error)
  with Inl have "pack_pass NB P params tot sprites n tasks descs = Done (tasks, Inl ErrInputTooLarge)"
    by (simp add: pack_pass_def)
  then show ?thesis by (rule TooLarge)
next
  case (Inr pr)
  obtain cs ics where pr: "pr = (cs, ics)" by (cases pr)
  from Inr pr have len: "length cs + length ics = length sprites"
    using pack_sprites_length [of P _ sprites "[]" "[]" cs ics] by simp
  show ?thesis
    by (rule Packed [of cs ics]) (use Inr pr len in \<open>simp_all add: pack_pass_def dispatch_def Let_def\<close>)
qed

lemma pack_pass_Next:
  assumes "pack_pass NB P params tot sprites n tasks descs = Next s' n' t' d'"
  shows "n' = n + 1 \<and> length t' = length tasks + 1 \<and> s' \<noteq> []"
  by (cases rule: pack_pass_cases [of NB P params tot sprites n tasks descs])
    (use assms in \<open>auto split: if_splits\<close>)

lemma pack_pass_Done:
  assumes "pack_pass NB P params tot sprites n tasks descs = Done (t', Inl e)"
  shows "e = ErrInputTooLarge \<or> e = ErrOutOfRoom"
  by (cases rule: pack_pass_cases [of NB P params tot sprites n tasks descs])
    (use assms in \<open>auto split: if_splits\<close>)

lemma limit_error_neq [simp]:
  "limit_error params \<noteq> ErrOutOfRoom" "limit_error params \<noteq> ErrInputTooLarge"
  "ErrOutOfRoom \<noteq> limit_error params" "ErrInputTooLarge \<noteq> limit_error params"
  by (simp_all add: limit_error_def)

section \<open>The results of the loop\<close>

lemma pack_loop_invariant:
  assumes "pack_loop NB P params tot sprites n tasks descs = Some y"
  shows "loop_inv params tot sprites n tasks descs y"
proof (rule pack_loop.raw_induct
    [where P = "\<lambda>NB P params tot sprites n tasks descs y. loop_inv params tot sprites n tasks descs y",
     OF _ assms])
  fix pack_loop :: "(int \<Rightarrow> int \<Rightarrow> 'a) \<Rightarrow> ('a \<Rightarrow> sprite \<Rightarrow> error option \<times> 'a \<times> sprite) \<Rightarrow> Params \<Rightarrow> nat \<Rightarrow>
    sprite list \<Rightarrow> int \<Rightarrow> task list \<Rightarrow> atlas list \<Rightarrow> (task list \<times> (error + atlas list)) option"
  fix NB P params tot sprites n tasks descs y
  assume IH: "\<And>NB P params tot sprites n tasks descs y.
     pack_loop NB P params tot sprites n tasks descs = Some y \<Longrightarrow>
     loop_inv params tot sprites n tasks descs y"
  assume prem: "(if limit_reached params n then Some (tasks, Inl (limit_error params))
      else case pack_pass NB P params tot sprites n tasks descs of
             Done r \<Rightarrow> Some r
           | Next sprites' n tasks' descAtlases' \<Rightarrow>
               pack_loop NB P params tot sprites' n tasks' descAtlases') = Some y"
  show "loop_inv params tot sprites n tasks descs y"
  proof (cases "limit_reached params n")
    case True
    with prem have "y = (tasks, Inl (limit_error params))" by simp
    with True show ?thesis unfolding loop_inv_def by (intro exI [of _ "[]"]) simp
  next
    case nl: False
    show ?thesis
    proof (cases rule: pack_pass_cases [of NB P params tot sprites n tasks descs])
      case TooLarge
      with prem nl have "y = (tasks, Inl ErrInputTooLarge)" by simp
      then show ?thesis unfolding loop_inv_def by (intro exI [of _ "[]"]) simp
    next
      case (Packed cs ics)
      let ?a = "new_atlas params (n + 1) cs"
      show ?thesis
      proof (cases "length ics = 0")
        case True
        with prem nl Packed(3)
        have "y = (tasks @ [dispatch params ?a], Inr (if CombineDescFiles params then descs @ [?a] else descs))"
          by simp
        then show ?thesis unfolding loop_inv_def by (intro exI [of _ "[cs]"]) simp
      next
        case ne: False
        show ?thesis
        proof (cases "length ics = tot")
          case True
          with prem nl ne Packed(3)
          have y: "y = (tasks @ [dispatch params ?a], Inl ErrOutOfRoom)" by simp
          have "length sprites \<le> tot \<longrightarrow> cs = []"
          proof
            assume "length sprites \<le> tot"
            with Packed(2) True have "length cs = 0" by arith
            then show "cs = []" by simp
          qed
          with y show ?thesis unfolding loop_inv_def by (intro exI [of _ "[cs]"]) simp
        next
          case False
          with prem nl ne Packed(3)
          have "pack_loop NB P params tot ics (n + 1) (tasks @ [dispatch params ?a])
                  (if CombineDescFiles params then descs @ [?a] else descs) = Some y"
            by simp
          from IH [OF this] obtain css where
            css: "fst y = (tasks @ [dispatch params ?a]) @ map (dispatch params) (atlases_from params (n + 1) css)"
              "(case snd y of
                 Inr descs' \<Rightarrow> css \<noteq> [] \<and>
                   descs' = (if CombineDescFiles params
                             then (if CombineDescFiles params then descs @ [?a] else descs) @ atlases_from params (n + 1) css
                             else (if CombineDescFiles params then descs @ [?a] else descs))
               | Inl e \<Rightarrow> (e = ErrOutOfRoom \<longrightarrow> length ics \<le> tot \<longrightarrow> css \<noteq> [] \<and> last css = [])
                     \<and> (e = limit_error params \<and> limit_reached params (n + 1 + int (length css))
                         \<or> e = ErrOutOfRoom \<or> e = ErrInputTooLarge))"
            unfolding loop_inv_def by blast
          have le: "length sprites \<le> tot \<Longrightarrow> length ics \<le> tot" using Packed(2) by simp
          show ?thesis unfolding loop_inv_def
            apply (intro exI [of _ "cs # css"])
            using css le by (auto split: sum.splits simp: algebra_simps)
        qed
      qed
    qed
  qed
qed

lemma passes_Next:
  "passes k NB P params tot sprites n tasks descs = Next s' n' t' d' \<Longrightarrow>
   n' = n + int k \<and> length t' = length tasks + k \<and> (0 < k \<longrightarrow> s' \<noteq> [])"
proof (induction k arbitrary: sprites n tasks descs)
  case 0
  then show ?case by simp
next
  case (Suc k)
  show ?case
  proof (cases "pack_pass NB P params tot sprites n tasks descs")
    case (Done r)
    with Suc.prems show ?thesis by simp
  next
    case (Next s1 n1 t1 d1)
    with Suc.prems have ps: "passes k NB P params tot s1 n1 t1 d1 = Next s' n' t' d'" by simp
    show ?thesis
    proof (cases k)
      case 0
      with ps have "s' = s1" "n' = n1" "t' = t1" by simp_all
      with 0 pack_pass_Next [OF Next] show ?thesis by simp
    next
      case (Suc j)
      with Suc.IH [OF ps] pack_pass_Next [OF Next] show ?thesis by simp
    qed
  qed
qed

lemma passes_Done:
  "passes k NB P params tot sprites n tasks descs = Done (t', Inl e) \<Longrightarrow>
   e = ErrInputTooLarge \<or> e = ErrOutOfRoom"
proof (induction k arbitrary: sprites n tasks descs)
  case 0
  then show ?case by simp
next
  case (Suc k)
  show ?case
  proof (cases "pack_pass NB P params tot sprites n tasks descs")
    case (Done r)
    with Suc.prems pack_pass_Done [of NB P params tot sprites n tasks descs t' e]
    show ?thesis by simp
  next
    case (Next s1 n1 t1 d1)
    with Suc.prems have "passes k NB P params tot s1 n1 t1 d1 = Done (t', Inl e)" by simp
    from Suc.IH [OF this] show ?thesis .
  qed
qed

lemma pack_loop_passes:
  assumes "0 < MaxAtlases params"
  shows "n \<le> MaxAtlases params \<Longrightarrow> k = nat (MaxAtlases params - n) \<Longrightarrow>
    pack_loop NB P params tot sprites n tasks descs =
      (case passes k NB P params tot sprites n tasks descs of
         Done r \<Rightarrow> Some r
       | Next s' n' t' d' \<Rightarrow> Some (t', Inl (limit_error params)))"
proof (induction k arbitrary: sprites n tasks descs)
  case 0
  with assms have "limit_reached params n" by (simp add: limit_reached_def)
  then show ?case by (subst pack_loop.simps) simp
next
  case (Suc k)
  from Suc.prems have lt: "n < MaxAtlases params" by simp
  then have nl: "\<not> limit_reached params n" by (simp add: limit_reached_def)
  show ?case
  proof (cases "pack_pass NB P params tot sprites n tasks descs")
    case (Done r)
    with nl show ?thesis by (subst pack_loop.simps) simp
  next
    case (Next s1 n1 t1 d1)
    from pack_pass_Next [OF Next] have n1: "n1 = n + 1" by simp
    with lt Suc.prems have "n1 \<le> MaxAtlases params" "k = nat (MaxAtlases params - n1)" by simp_all
    from Suc.IH [OF this] Next nl show ?thesis by (subst pack_loop.simps) simp
  qed
qed

lemma passes_unlimited:
  assumes "\<not> 0 < MaxAtlases params"
  shows "passes k NB P params tot sprites n tasks descs = Done r \<Longrightarrow>
    pack_loop NB P params tot sprites n tasks descs = Some r"
proof (induction k arbitrary: sprites n tasks descs)
  case 0
  then show ?case by simp
next
  case (Suc k)
  from assms have nl: "\<not> limit_reached params n" by (simp add: limit_reached_def)
  show ?case
  proof (cases "pack_pass NB P params tot sprites n tasks descs")
    case (Done r')
    with Suc.prems nl show ?thesis by (subst pack_loop.simps) simp
  next
    case (Next s1 n1 t1 d1)
    with Suc.prems have "passes k NB P params tot s1 n1 t1 d1 = Done r" by simp
    from Suc.IH [OF this] Next nl show ?thesis by (subst pack_loop.simps) simp
  qed
qed

lemma pack_loop_stuck:
  fixes NB :: "int \<Rightarrow> int \<Rightarrow> 'p" and P :: "'p \<Rightarrow> sprite \<Rightarrow> error option \<times> 'p \<times> sprite"
  assumes stuck: "pack_sprites P (NB (Width params) (Height params)) sprites [] [] =
      Inr ([], sprites)"
    and ne: "sprites \<noteq> []" and later: "length sprites \<noteq> tot"
    and nolimit: "\<not> 0 < MaxAtlases params"
  shows "pack_loop NB P params tot sprites n tasks descs = None"
proof (rule ccontr)
  assume "pack_loop NB P params tot sprites n tasks descs \<noteq> None"
  then obtain y where y: "pack_loop NB P params tot sprites n tasks descs = Some y" by auto
  have "\<not> (NB = NB \<and> P = P \<and> params = params \<and> tot = tot \<and> sprites = sprites)"
  proof (rule pack_loop.raw_induct
      [where P = "\<lambda>NB' P' params' tot' sprites' n tasks descs y.
          \<not> (NB' = NB \<and> P' = P \<and> params' = params \<and> tot' = tot \<and> sprites' = sprites)",
       OF _ y])
    fix pack_loop :: "(int \<Rightarrow> int \<Rightarrow> 'p) \<Rightarrow> ('p \<Rightarrow> sprite \<Rightarrow> error option \<times> 'p \<times> sprite) \<Rightarrow>
      Params \<Rightarrow> nat \<Rightarrow> sprite list \<Rightarrow> int \<Rightarrow> task list \<Rightarrow> atlas list \<Rightarrow>
      (task list \<times> (error + atlas list)) option"
    fix NB' P' params' tot' sprites' n tasks descs y
    assume IH: "\<And>NB' P' params' tot' sprites' n tasks descs y.
       pack_loop NB' P' params' tot' sprites' n tasks descs = Some y \<Longrightarrow>
       \<not> (NB' = NB \<and> P' = P \<and> params' = params \<and> tot' = tot \<and> sprites' = sprites)"
    assume prem: "(if limit_reached params' n then Some (tasks, Inl (limit_error params'))
        else case pack_pass NB' P' params' tot' sprites' n tasks descs of
               Done r \<Rightarrow> Some r
             | Next sprites'' n tasks' descAtlases' \<Rightarrow>
                 pack_loop NB' P' params' tot' sprites'' n tasks' descAtlases') = Some y"
    show "\<not> (NB' = NB \<and> P' = P \<and> params' = params \<and> tot' = tot \<and> sprites' = sprites)"
    proof
      assume eq: "NB' = NB \<and> P' = P \<and> params' = params \<and> tot' = tot \<and> sprites' = sprites"
      from nolimit have nl: "\<not> limit_reached params n" by (simp add: limit_reached_def)
      from stuck ne later obtain t' d' where
        "pack_pass NB P params tot sprites n tasks descs = Next sprites (n + 1) t' d'"
        by (simp add: pack_pass_def Let_def)
      with prem eq nl have "pack_loop NB P params tot sprites (n + 1) t' d' = Some y" by simp
      from IH [OF this] show False by simp
    qed
  qed
  then show False by simp
qed



section \<open>From the loop to Run\<close>



lemma wait_errc_Some: "wait_errc errc = Some e \<Longrightarrow> Some e \<in> set errc"
  by (induction errc) (auto split: option.splits)

lemma Run_loop:
  assumes "ctx = Some c" and "IsValid (Format p)" and "validateRequiredParameters p = None"
    and "Input (applySensibleDefaults p) = Some inp"
    and "readAssetStream inp (Padding (applySensibleDefaults p))
           (Scale (applySensibleDefaults p)) = Inr decoded"
  shows "Run NB P ctx (Some p) errc =
    (case pack_loop NB P (applySensibleDefaults p) (length (sort_ByArea decoded))
            (sort_ByArea decoded) 0 [] [] of
       None \<Rightarrow> None
     | Some (tasks, Inl err) \<Rightarrow> Some (tasks, Some err)
     | Some (tasks, Inr descAtlases) \<Rightarrow>
         Some (if length descAtlases > 0
               then tasks @ [TaskOutputDesc (desc_calls 0 descAtlases)]
               else tasks,
               wait_errc errc))"
  using assms by (simp add: Run_def Let_def)



lemma Run_OutOfRoom:
  assumes run: "Run NB P ctx (Some p) errc = Some (tasks, Some ErrOutOfRoom)"
    and errc: "Some ErrOutOfRoom \<notin> set errc"
    and stream: "\<And>inp. Input p = Some inp \<Longrightarrow> stream_err inp \<noteq> Some ErrOutOfRoom"
  shows "\<exists>decoded. pack_loop NB P (applySensibleDefaults p) (length (sort_ByArea decoded))
            (sort_ByArea decoded) 0 [] [] = Some (tasks, Inl ErrOutOfRoom)"
proof -
  let ?q = "applySensibleDefaults p"
  have inp: "Input ?q = Input p" by (simp add: applySensibleDefaults_def Let_def)
  from run obtain c where ctx: "ctx = Some c"
    by (cases ctx) (simp_all add: Run_def)
  from run ctx have valid: "IsValid (Format p)"
    by (cases "IsValid (Format p)") (simp_all add: Run_def)
  from run ctx valid have req: "validateRequiredParameters p = None"
    by (cases "validateRequiredParameters p")
      (auto simp: Run_def validateRequiredParameters_def split: if_splits)
  from req obtain input where input: "Input p = Some input"
    by (cases "Input p") (simp_all add: validateRequiredParameters_def)
  have "\<exists>decoded. readAssetStream input (Padding ?q) (Scale ?q) = Inr decoded"
  proof (cases "readAssetStream input (Padding ?q) (Scale ?q)")
    case (Inl e)
    with run ctx valid req input inp have "e = ErrOutOfRoom" by (simp add: Run_def Let_def)
    with readAssetStream_Inl [OF Inl] stream [OF input] show ?thesis by simp
  next
    case (Inr decoded)
    then show ?thesis by blast
  qed
  then obtain decoded where dec: "readAssetStream input (Padding ?q) (Scale ?q) = Inr decoded"
    by blast
  let ?l = "pack_loop NB P ?q (length (sort_ByArea decoded)) (sort_ByArea decoded) 0 [] []"
  from run ctx valid req input inp dec
  have r: "(case ?l of None \<Rightarrow> None
       | Some (tasks, Inl err) \<Rightarrow> Some (tasks, Some err)
       | Some (tasks, Inr descAtlases) \<Rightarrow>
           Some (if length descAtlases > 0
                 then tasks @ [TaskOutputDesc (desc_calls 0 descAtlases)]
                 else tasks,
                 wait_errc errc)) = Some (tasks, Some ErrOutOfRoom)"
    by (simp add: Run_def Let_def)
  then obtain ts x where l: "?l = Some (ts, x)" by (cases ?l) auto
  have "x = Inl ErrOutOfRoom \<and> ts = tasks"
  proof (cases x)
    case (Inl e)
    with r l show ?thesis by simp
  next
    case (Inr descs)
    with r l have "wait_errc errc = Some ErrOutOfRoom" by simp
    from wait_errc_Some [OF this] errc show ?thesis by simp
  qed
  with l show ?thesis by blast
qed


lemma stuck_Run:
  "Run NewBinPacker Pack (Some Background) (Some (stuck_Params mx)) errc =
    (case pack_loop NewBinPacker Pack (applySensibleDefaults (stuck_Params mx)) 2
            [placed ''a.png'' 9 9 2 0 0, placed ''b.png'' 4 4 2 0 0] 0 [] [] of
       None \<Rightarrow> None
     | Some (tasks, Inl err) \<Rightarrow> Some (tasks, Some err)
     | Some (tasks, Inr descAtlases) \<Rightarrow>
         Some (if length descAtlases > 0
               then tasks @ [TaskOutputDesc (desc_calls 0 descAtlases)]
               else tasks,
               wait_errc errc))"
proof -
  let ?inp = "\<lparr>assets = [image_asset ''a.png'' 9 9, image_asset ''b.png'' 4 4], stream_err = None\<rparr>"
  have 1: "IsValid (Format (stuck_Params mx))"
    by (simp add: stuck_Params_def example_Params_def love_Format_def IsValid_def)
  have 2: "validateRequiredParameters (stuck_Params mx) = None"
    by (simp add: stuck_Params_def example_Params_def validateRequiredParameters_def)
  have 3: "Input (applySensibleDefaults (stuck_Params mx)) = Some ?inp"
    by (simp add: stuck_Params_def example_Params_def applySensibleDefaults_def Let_def)
  have ps: "Padding (applySensibleDefaults (stuck_Params mx)) = 2"
    "Scale (applySensibleDefaults (stuck_Params mx)) = 1"
    by (simp_all add: stuck_Params_def example_Params_def applySensibleDefaults_def Let_def)
  have "readAssetStream ?inp 2 1 =
      Inr [placed ''a.png'' 9 9 2 0 0, placed ''b.png'' 4 4 2 0 0]"
    by code_simp
  then have 4: "readAssetStream ?inp (Padding (applySensibleDefaults (stuck_Params mx)))
      (Scale (applySensibleDefaults (stuck_Params mx))) =
      Inr [placed ''a.png'' 9 9 2 0 0, placed ''b.png'' 4 4 2 0 0]"
    by (simp only: ps)
  have 5: "sort_ByArea [placed ''a.png'' 9 9 2 0 0, placed ''b.png'' 4 4 2 0 0] =
      [placed ''a.png'' 9 9 2 0 0, placed ''b.png'' 4 4 2 0 0]"
    by code_simp
  from Run_loop [OF refl 1 2 3 4, where NB = NewBinPacker and P = Pack and errc = errc]
  show ?thesis
    by (simp add: 5 numeral_2_eq_2)
qed

section \<open>Atlases and tasks of a run\<close>







lemma loop_OutOfRoom_last:
  assumes loop: "pack_loop NB P params (length sprites0) sprites0 0 [] [] =
    Some (tasks', Inl ErrOutOfRoom)"
  shows "tasks' \<noteq> [] \<and>
      (\<exists>a. last tasks' = dispatch params a \<and> atlas_Sprites a = [] \<and>
           atlas_Name a = formatName params (Name params) (int (length tasks')))"
proof -
  from pack_loop_invariant [OF loop] obtain css where
    css: "tasks' = map (dispatch params) (atlases_from params 0 css)" "css \<noteq> []" "last css = []"
    unfolding loop_inv_def by auto
  from css(2) have len: "length css - 1 < length css" by (cases css) auto
  have "last tasks' = dispatch params (atlases_from params 0 css ! (length css - 1))"
    using css by (simp add: last_map last_conv_nth)
  also have "atlases_from params 0 css ! (length css - 1) =
      new_atlas params (int (length css)) (css ! (length css - 1))"
    using len css(2) by (simp add: atlases_from_nth of_nat_diff Suc_leI)
  also have "css ! (length css - 1) = []" using css(2,3) by (simp add: last_conv_nth)
  finally have "last tasks' = dispatch params (new_atlas params (int (length css)) [])" .
  moreover have "length tasks' = length css" using css(1) by simp
  ultimately show ?thesis
    using css(1,2) by (auto simp: new_atlas_def Let_def)
qed

text \<open>
  C10. A pass that has offered all its sprites to the packer dispatches the task of its
  atlas, with the index raised by one, whatever comes next: the end of the loop, the
  OutOfRoom error or another pass.  So when the loop ends with OutOfRoom, the task
  dispatched last is the one of the failing pass, and its atlas has no sprite.  The same
  holds of a run that returns OutOfRoom, as long as that error value comes from the loop
  and not from the asset stream or from a write task.
\<close>

theorem OutOfRoom_after_dispatch:
  "(pack_sprites P (NB (Width params) (Height params)) sprites [] [] = Inr (cs, ics) \<longrightarrow>
      (\<exists>r. pack_pass NB P params tot sprites n tasks descs =
             Done (tasks @ [dispatch params (new_atlas params (n + 1) cs)], r)) \<or>
      (\<exists>descs'. pack_pass NB P params tot sprites n tasks descs =
             Next ics (n + 1) (tasks @ [dispatch params (new_atlas params (n + 1) cs)]) descs')) \<and>
   (pack_loop NB P params (length sprites0) sprites0 0 [] [] = Some (tasks', Inl ErrOutOfRoom) \<longrightarrow>
      tasks' \<noteq> [] \<and>
      (\<exists>a. last tasks' = dispatch params a \<and> atlas_Sprites a = [] \<and>
           atlas_Name a = formatName params (Name params) (int (length tasks')))) \<and>
   (Run NB P ctx (Some p) errc = Some (ts, Some ErrOutOfRoom) \<and>
    Some ErrOutOfRoom \<notin> set errc \<and>
    (\<forall>inp. Input p = Some inp \<longrightarrow> stream_err inp \<noteq> Some ErrOutOfRoom) \<longrightarrow>
      ts \<noteq> [] \<and>
      (\<exists>a. last ts = dispatch (applySensibleDefaults p) a \<and> atlas_Sprites a = [] \<and>
           atlas_Name a =
             formatName (applySensibleDefaults p) (Name (applySensibleDefaults p))
               (int (length ts))))"
proof (intro conjI)
  show "pack_sprites P (NB (Width params) (Height params)) sprites [] [] = Inr (cs, ics) \<longrightarrow>
      (\<exists>r. pack_pass NB P params tot sprites n tasks descs =
             Done (tasks @ [dispatch params (new_atlas params (n + 1) cs)], r)) \<or>
      (\<exists>descs'. pack_pass NB P params tot sprites n tasks descs =
             Next ics (n + 1) (tasks @ [dispatch params (new_atlas params (n + 1) cs)]) descs')"
    by (simp add: pack_pass_def dispatch_def Let_def)
next
  show "pack_loop NB P params (length sprites0) sprites0 0 [] [] = Some (tasks', Inl ErrOutOfRoom) \<longrightarrow>
      tasks' \<noteq> [] \<and>
      (\<exists>a. last tasks' = dispatch params a \<and> atlas_Sprites a = [] \<and>
           atlas_Name a = formatName params (Name params) (int (length tasks')))"
    using loop_OutOfRoom_last by blast
next
  show "Run NB P ctx (Some p) errc = Some (ts, Some ErrOutOfRoom) \<and>
    Some ErrOutOfRoom \<notin> set errc \<and>
    (\<forall>inp. Input p = Some inp \<longrightarrow> stream_err inp \<noteq> Some ErrOutOfRoom) \<longrightarrow>
      ts \<noteq> [] \<and>
      (\<exists>a. last ts = dispatch (applySensibleDefaults p) a \<and> atlas_Sprites a = [] \<and>
           atlas_Name a =
             formatName (applySensibleDefaults p) (Name (applySensibleDefaults p))
               (int (length ts)))"
  proof
    assume a: "Run NB P ctx (Some p) errc = Some (ts, Some ErrOutOfRoom) \<and>
      Some ErrOutOfRoom \<notin> set errc \<and>
      (\<forall>inp. Input p = Some inp \<longrightarrow> stream_err inp \<noteq> Some ErrOutOfRoom)"
    then obtain decoded where
      "pack_loop NB P (applySensibleDefaults p) (length (sort_ByArea decoded))
         (sort_ByArea decoded) 0 [] [] = Some (ts, Inl ErrOutOfRoom)"
      using Run_OutOfRoom [of NB P ctx p errc ts] by blast
    then show "ts \<noteq> [] \<and>
      (\<exists>a. last ts = dispatch (applySensibleDefaults p) a \<and> atlas_Sprites a = [] \<and>
           atlas_Name a =
             formatName (applySensibleDefaults p) (Name (applySensibleDefaults p))
               (int (length ts)))"
      by (rule loop_OutOfRoom_last)
  qed
qed

lemma padded_run:
  "Run NewBinPacker Pack (Some Background) (Some padded_Params) [] =
     Some ([TaskOutput (example_atlas ''atlas-1'' ''atlas-1.lua'' [])], Some ErrOutOfRoom)"
  by code_simp

theorem OutOfRoom_after_dispatch_witness:
  "Run NewBinPacker Pack (Some Background) (Some padded_Params) [] =
     Some ([TaskOutput (example_atlas ''atlas-1'' ''atlas-1.lua'' [])], Some ErrOutOfRoom) \<and>
   Some ErrOutOfRoom \<notin> set [] \<and>
   Input padded_Params =
     Some \<lparr>assets = [image_asset ''a.png'' 9 9], stream_err = None\<rparr> \<and>
   last [TaskOutput (example_atlas ''atlas-1'' ''atlas-1.lua'' [])] =
     dispatch (applySensibleDefaults padded_Params)
       (example_atlas ''atlas-1'' ''atlas-1.lua'' []) \<and>
   atlas_Sprites (example_atlas ''atlas-1'' ''atlas-1.lua'' []) = []"
  using OutOfRoom_after_dispatch [where NB = NewBinPacker and P = Pack
      and ctx = "Some Background" and p = padded_Params and errc = "[]"
      and ts = "[TaskOutput (example_atlas ''atlas-1'' ''atlas-1.lua'' [])]"]
    padded_run
  by (simp add: dispatch_def example_atlas_def applySensibleDefaults_def padded_Params_def
      example_Params_def Let_def)

section \<open>The atlas limit and fatal errors\<close>

text \<open>
  C4. With a maximum of \<open>N > 0\<close> atlases the loop does what its first \<open>N\<close> passes do:
  when one of them ends the run, with success or with an error, that is the result, so a
  run that is complete after exactly \<open>N\<close> atlases succeeds; when sprites are still
  deferred after \<open>N\<close> passes, and only then, the result is the atlas-limit error, with
  exactly \<open>N\<close> atlases dispatched.  With a maximum of 0 the result of the passes is the
  result however many passes it takes, and it is never the atlas-limit error.
\<close>

theorem MaxAtlases_limit:
  "(0 < MaxAtlases params \<longrightarrow>
      pack_loop NB P params tot sprites 0 [] [] =
        (case passes (nat (MaxAtlases params)) NB P params tot sprites 0 [] [] of
           Done r \<Rightarrow> Some r
         | Next sprites' n tasks' descs' \<Rightarrow> Some (tasks', Inl (limit_error params))) \<and>
      ((\<exists>tasks'. pack_loop NB P params tot sprites 0 [] [] =
                   Some (tasks', Inl (limit_error params))) \<longleftrightarrow>
       (\<exists>sprites' tasks' descs'. sprites' \<noteq> [] \<and> length tasks' = nat (MaxAtlases params) \<and>
          passes (nat (MaxAtlases params)) NB P params tot sprites 0 [] [] =
            Next sprites' (MaxAtlases params) tasks' descs'))) \<and>
   (MaxAtlases params = 0 \<longrightarrow>
      (\<forall>k r. passes k NB P params tot sprites 0 [] [] = Done r \<longrightarrow>
         pack_loop NB P params tot sprites 0 [] [] = Some r) \<and>
      (\<forall>tasks'. pack_loop NB P params tot sprites 0 [] [] \<noteq>
         Some (tasks', Inl (limit_error params))))"
proof (rule conjI; rule impI)
  assume pos: "0 < MaxAtlases params"
  let ?N = "nat (MaxAtlases params)"
  let ?ps = "passes ?N NB P params tot sprites 0 [] []"
  have eq: "pack_loop NB P params tot sprites 0 [] [] =
        (case ?ps of Done r \<Rightarrow> Some r
         | Next sprites' n tasks' descs' \<Rightarrow> Some (tasks', Inl (limit_error params)))"
    using pack_loop_passes [OF pos, of 0 ?N NB P tot sprites "[]" "[]"] pos by simp
  have iff: "(\<exists>tasks'. pack_loop NB P params tot sprites 0 [] [] =
                   Some (tasks', Inl (limit_error params))) \<longleftrightarrow>
       (\<exists>sprites' tasks' descs'. sprites' \<noteq> [] \<and> length tasks' = ?N \<and>
          ?ps = Next sprites' (MaxAtlases params) tasks' descs')"
  proof (cases ?ps)
    case (Done r)
    obtain t x where r: "r = (t, x)" by (cases r)
    have "x \<noteq> Inl (limit_error params)"
      using passes_Done [of ?N NB P params tot sprites 0 "[]" "[]" t "limit_error params"] Done r
      by auto
    with Done r eq show ?thesis by simp
  next
    case (Next s' n' t' d')
    from passes_Next [OF Next] pos have "n' = MaxAtlases params" "length t' = ?N" "s' \<noteq> []"
      by simp_all
    with Next eq show ?thesis by simp
  qed
  from eq iff show "pack_loop NB P params tot sprites 0 [] [] =
        (case ?ps of Done r \<Rightarrow> Some r
         | Next sprites' n tasks' descs' \<Rightarrow> Some (tasks', Inl (limit_error params))) \<and>
      ((\<exists>tasks'. pack_loop NB P params tot sprites 0 [] [] =
                   Some (tasks', Inl (limit_error params))) \<longleftrightarrow>
       (\<exists>sprites' tasks' descs'. sprites' \<noteq> [] \<and> length tasks' = ?N \<and>
          ?ps = Next sprites' (MaxAtlases params) tasks' descs'))"
    by (rule conjI)
next
  assume zero: "MaxAtlases params = 0"
  then have np: "\<not> 0 < MaxAtlases params" by simp
  have never: "pack_loop NB P params tot sprites 0 [] [] \<noteq> Some (tasks', Inl (limit_error params))"
    for tasks'
  proof
    assume "pack_loop NB P params tot sprites 0 [] [] = Some (tasks', Inl (limit_error params))"
    from pack_loop_invariant [OF this] np show False
      unfolding loop_inv_def by (auto simp: limit_reached_def)
  qed
  with passes_unlimited [OF np]
  show "(\<forall>k r. passes k NB P params tot sprites 0 [] [] = Done r \<longrightarrow>
         pack_loop NB P params tot sprites 0 [] [] = Some r) \<and>
      (\<forall>tasks'. pack_loop NB P params tot sprites 0 [] [] \<noteq>
         Some (tasks', Inl (limit_error params)))"
    by blast
qed

theorem MaxAtlases_limit_witness:
  "0 < MaxAtlases (applySensibleDefaults (limited_Params three_big 2)) \<and>
   pack_loop NewBinPacker Pack (applySensibleDefaults (limited_Params three_big 2)) 3
       three_big_sprites 0 [] [] =
     Some ([TaskOutput (big_atlas 1 ''a.png''), TaskOutput (big_atlas 2 ''b.png'')],
           Inl (Err ''Maximum number of atlases (2) exceeded'')) \<and>
   0 < MaxAtlases (applySensibleDefaults (limited_Params three_big 3)) \<and>
   pack_loop NewBinPacker Pack (applySensibleDefaults (limited_Params three_big 3)) 3
       three_big_sprites 0 [] [] =
     Some ([TaskOutput (big_atlas 1 ''a.png''), TaskOutput (big_atlas 2 ''b.png''),
            TaskOutput (big_atlas 3 ''c.png'')], Inr []) \<and>
   MaxAtlases (applySensibleDefaults (limited_Params three_big 0)) = 0 \<and>
   pack_loop NewBinPacker Pack (applySensibleDefaults (limited_Params three_big 0)) 3
       three_big_sprites 0 [] [] =
     Some ([TaskOutput (big_atlas 1 ''a.png''), TaskOutput (big_atlas 2 ''b.png''),
            TaskOutput (big_atlas 3 ''c.png'')], Inr [])"
proof -
  let ?q2 = "applySensibleDefaults (limited_Params three_big 2)"
  let ?q3 = "applySensibleDefaults (limited_Params three_big 3)"
  let ?q0 = "applySensibleDefaults (limited_Params three_big 0)"
  have h2: "0 < MaxAtlases ?q2" by code_simp
  have h3: "0 < MaxAtlases ?q3" by code_simp
  have h0: "MaxAtlases ?q0 = 0" by code_simp
  have p2: "passes (nat (MaxAtlases ?q2)) NewBinPacker Pack ?q2 3 three_big_sprites 0 [] [] =
      Next [placed ''c.png'' 6 6 0 0 0] 2
        [TaskOutput (big_atlas 1 ''a.png''), TaskOutput (big_atlas 2 ''b.png'')] []"
    by code_simp
  have e2: "limit_error ?q2 = Err ''Maximum number of atlases (2) exceeded''" by code_simp
  have p3: "passes (nat (MaxAtlases ?q3)) NewBinPacker Pack ?q3 3 three_big_sprites 0 [] [] =
      Done ([TaskOutput (big_atlas 1 ''a.png''), TaskOutput (big_atlas 2 ''b.png''),
            TaskOutput (big_atlas 3 ''c.png'')], Inr [])"
    by code_simp
  have p0: "passes 3 NewBinPacker Pack ?q0 3 three_big_sprites 0 [] [] =
      Done ([TaskOutput (big_atlas 1 ''a.png''), TaskOutput (big_atlas 2 ''b.png''),
            TaskOutput (big_atlas 3 ''c.png'')], Inr [])"
    by code_simp
  note t2 = MaxAtlases_limit [of ?q2 NewBinPacker Pack 3 three_big_sprites]
  note t3 = MaxAtlases_limit [of ?q3 NewBinPacker Pack 3 three_big_sprites]
  note t0 = MaxAtlases_limit [of ?q0 NewBinPacker Pack 3 three_big_sprites]
  from t2 h2 p2 e2 have r2: "pack_loop NewBinPacker Pack ?q2 3 three_big_sprites 0 [] [] =
     Some ([TaskOutput (big_atlas 1 ''a.png''), TaskOutput (big_atlas 2 ''b.png'')],
           Inl (Err ''Maximum number of atlases (2) exceeded''))"
    by simp
  from t3 h3 p3 have r3: "pack_loop NewBinPacker Pack ?q3 3 three_big_sprites 0 [] [] =
     Some ([TaskOutput (big_atlas 1 ''a.png''), TaskOutput (big_atlas 2 ''b.png''),
            TaskOutput (big_atlas 3 ''c.png'')], Inr [])"
    by simp
  from t0 h0 p0 have r0: "pack_loop NewBinPacker Pack ?q0 3 three_big_sprites 0 [] [] =
     Some ([TaskOutput (big_atlas 1 ''a.png''), TaskOutput (big_atlas 2 ''b.png''),
            TaskOutput (big_atlas 3 ''c.png'')], Inr [])"
    by blast
  from h2 r2 h3 r3 h0 r0 show ?thesis by (intro conjI)
qed

text \<open>
  C5. Let the packer of a pass signal InputTooLarge for the sprite \<open>x\<close>, after the
  sprites \<open>xs\<close> before it went through without that signal.  Then the loop ends at once
  with the error InputTooLarge: whatever sprites \<open>ys\<close> follow \<open>x\<close> in the pass, the
  result is the same, and the dispatched tasks are those of the earlier passes, so the
  pass dispatches no atlas and defers nothing.
\<close>

theorem InputTooLarge_aborts:
  assumes "\<not> limit_reached params n"
    and "\<not> too_large_in P (NB (Width params) (Height params)) xs"
    and "fst (P (packer_after P (NB (Width params) (Height params)) xs) x) =
           Some ErrInputTooLarge"
  shows "pack_loop NB P params tot (xs @ x # ys) n tasks descs =
           Some (tasks, Inl ErrInputTooLarge)"
proof -
  from assms(2,3) have "pack_sprites P (NB (Width params) (Height params)) (xs @ x # ys) [] [] =
      Inl ErrInputTooLarge"
    by (rule pack_sprites_too_large)
  then have "pack_pass NB P params tot (xs @ x # ys) n tasks descs =
      Done (tasks, Inl ErrInputTooLarge)"
    by (simp add: pack_pass_def)
  with assms(1) show ?thesis by (subst pack_loop.simps) simp
qed

theorem InputTooLarge_aborts_witness:
  "\<not> limit_reached (applySensibleDefaults (limited_Params [] 0)) 0 \<and>
   \<not> too_large_in Pack (NewBinPacker 10 10) [placed ''a.png'' 8 8 0 0 0] \<and>
   fst (Pack (packer_after Pack (NewBinPacker 10 10) [placed ''a.png'' 8 8 0 0 0])
          (placed ''b.png'' 11 4 0 0 0)) = Some ErrInputTooLarge \<and>
   pack_loop NewBinPacker Pack (applySensibleDefaults (limited_Params [] 0)) 3
     too_large_sprites 0 [] [] = Some ([], Inl ErrInputTooLarge)"
proof -
  let ?q = "applySensibleDefaults (limited_Params [] 0)"
  have w: "Width ?q = 10" "Height ?q = 10" by code_simp+
  have h1: "\<not> limit_reached ?q 0" by code_simp
  have h2: "\<not> too_large_in Pack (NewBinPacker 10 10) [placed ''a.png'' 8 8 0 0 0]"
    by code_simp
  have h3: "fst (Pack (packer_after Pack (NewBinPacker 10 10) [placed ''a.png'' 8 8 0 0 0])
          (placed ''b.png'' 11 4 0 0 0)) = Some ErrInputTooLarge"
    by code_simp
  have "pack_loop NewBinPacker Pack ?q 3
     ([placed ''a.png'' 8 8 0 0 0] @ placed ''b.png'' 11 4 0 0 0 # [placed ''c.png'' 3 3 0 0 0])
     0 [] [] = Some ([], Inl ErrInputTooLarge)"
    by (rule InputTooLarge_aborts [OF h1]) (simp_all only: w h2 h3 not_False_eq_True)
  then have "pack_loop NewBinPacker Pack ?q 3 too_large_sprites 0 [] [] =
      Some ([], Inl ErrInputTooLarge)"
    by (simp add: too_large_sprites_def)
  with h1 h2 h3 show ?thesis by (intro conjI)
qed

section \<open>Progress\<close>

text \<open>
  C1. Two sprites, 9 by 9 and 4 by 4 pixels, padding 2, atlases of 10 by 10.  The first
  pass places the small sprite and defers the large one, whose padded box fits no
  atlas.  Every later pass places nothing, and its deferred count 1 is not the count 2
  of all sprites: without an atlas limit the loop never ends, and with a limit of 3 the
  run ends with the atlas-limit error after two empty atlases, not with OutOfRoom.
\<close>

theorem zero_progress_on_later_pass:
  "Run NewBinPacker Pack (Some Background) (Some (stuck_Params 0)) errc = None \<and>
   Run NewBinPacker Pack (Some Background) (Some (stuck_Params 3)) errc =
     Some ([TaskOutput (example_atlas ''atlas-1'' ''atlas-1.lua'' [placed ''b.png'' 4 4 2 0 0]),
            TaskOutput (example_atlas ''atlas-2'' ''atlas-2.lua'' []),
            TaskOutput (example_atlas ''atlas-3'' ''atlas-3.lua'' [])],
           Some (Err ''Maximum number of atlases (3) exceeded''))"
proof
  let ?q = "applySensibleDefaults (stuck_Params 0)"
  let ?a = "placed ''a.png'' 9 9 2 0 0"
  let ?t = "[TaskOutput (example_atlas ''atlas-1'' ''atlas-1.lua'' [placed ''b.png'' 4 4 2 0 0])]"
  have first: "pack_pass NewBinPacker Pack ?q 2 [?a, placed ''b.png'' 4 4 2 0 0] 0 [] [] =
      Next [?a] 1 ?t []"
    by code_simp
  have nl: "\<not> limit_reached ?q 0" by code_simp
  have "pack_sprites Pack (NewBinPacker (Width ?q) (Height ?q)) [?a] [] [] = Inr ([], [?a])"
    by code_simp
  moreover have "\<not> 0 < MaxAtlases ?q" by code_simp
  ultimately have "pack_loop NewBinPacker Pack ?q 2 [?a] 1 ?t [] = None"
    by (intro pack_loop_stuck) simp_all
  with first nl have "pack_loop NewBinPacker Pack ?q 2 [?a, placed ''b.png'' 4 4 2 0 0] 0 [] [] = None"
    by (subst pack_loop.simps) simp
  then show "Run NewBinPacker Pack (Some Background) (Some (stuck_Params 0)) errc = None"
    by (simp add: stuck_Run)
next
  have "pack_loop NewBinPacker Pack (applySensibleDefaults (stuck_Params 3)) 2
      [placed ''a.png'' 9 9 2 0 0, placed ''b.png'' 4 4 2 0 0] 0 [] [] =
    Some ([TaskOutput (example_atlas ''atlas-1'' ''atlas-1.lua'' [placed ''b.png'' 4 4 2 0 0]),
            TaskOutput (example_atlas ''atlas-2'' ''atlas-2.lua'' []),
            TaskOutput (example_atlas ''atlas-3'' ''atlas-3.lua'' [])],
           Inl (Err ''Maximum number of atlases (3) exceeded''))"
    by code_simp
  then show "Run NewBinPacker Pack (Some Background) (Some (stuck_Params 3)) errc =
     Some ([TaskOutput (example_atlas ''atlas-1'' ''atlas-1.lua'' [placed ''b.png'' 4 4 2 0 0]),
            TaskOutput (example_atlas ''atlas-2'' ''atlas-2.lua'' []),
            TaskOutput (example_atlas ''atlas-3'' ''atlas-3.lua'' [])],
           Some (Err ''Maximum number of atlases (3) exceeded''))"
    by (simp add: stuck_Run)
qed

section \<open>The order of arrival\<close>





end
